theory Spec2Isabelle
  imports Main "HOL-Library.Word" "HOL-Library.Monad_Syntax" "HOL-Library.Sublist"
begin

unbundle bit_operations_syntax

section \<open>Editor state and key codes (src/main.c)\<close>

text \<open>
  The special key codes of \<^verbatim>\<open>main.c\<close> (the \<^verbatim>\<open>#define KEY_...\<close> lines). A key is a C
  \<^verbatim>\<open>int\<close>; it is modelled as an \<open>int\<close>. The arithmetic on keys and coordinates in the
  functions below stays inside the 32-bit range as long as the extent does, and the
  theorems that need the range state it (\<open>c_int\<close>). Where a value can leave the range (the
  length of the append buffer, a number read by \<^verbatim>\<open>sscanf\<close>) the wrap-around is written out
  (\<open>wrap_int\<close>).
\<close>

abbreviation KEY_UP :: int where "KEY_UP \<equiv> 1000"
abbreviation KEY_DOWN :: int where "KEY_DOWN \<equiv> 1001"
abbreviation KEY_RIGHT :: int where "KEY_RIGHT \<equiv> 1002"
abbreviation KEY_LEFT :: int where "KEY_LEFT \<equiv> 1003"
abbreviation KEY_PAGE_UP :: int where "KEY_PAGE_UP \<equiv> 1004"
abbreviation KEY_PAGE_DOWN :: int where "KEY_PAGE_DOWN \<equiv> 1005"
abbreviation KEY_HOME :: int where "KEY_HOME \<equiv> 1006"
abbreviation KEY_END :: int where "KEY_END \<equiv> 1007"
abbreviation KEY_DEL :: int where "KEY_DEL \<equiv> 1008"
abbreviation KEY_ESC :: int where "KEY_ESC \<equiv> 27"

text \<open>\<^verbatim>\<open>struct editorState\<close>, the global \<^verbatim>\<open>E\<close>, passed explicitly.\<close>

record editorState =
  screenrows :: int
  screencols :: int
  cursor_x :: int
  cursor_y :: int

definition c_int :: "int \<Rightarrow> bool" where
  "c_int n \<longleftrightarrow> - 2147483648 \<le> n \<and> n \<le> 2147483647"

text \<open>
  The 32-bit two's-complement value of an integer: what an \<^verbatim>\<open>int\<close> holds after a sum has
  left the range (C itself gives signed overflow no meaning; this is what the machines this
  code is for compute), and what a conversion to \<^verbatim>\<open>int\<close> keeps of a wider value.
\<close>

definition wrap_int :: "int \<Rightarrow> int" where
  "wrap_int x = (x + 2147483648) mod 4294967296 - 2147483648"

text \<open>
  \<^verbatim>\<open>moveCursor\<close>: the \<^verbatim>\<open>switch\<close> on the key, in the order of the source; a key that is
  none of the eight cases leaves the state as it is.
\<close>

definition moveCursor :: "int \<Rightarrow> editorState \<Rightarrow> editorState" where
  "moveCursor key E =
     (if key = KEY_UP then
        (if cursor_y E > 0 then E\<lparr>cursor_y := cursor_y E - 1\<rparr> else E)
      else if key = KEY_DOWN then
        (if cursor_y E < screenrows E - 1 then E\<lparr>cursor_y := cursor_y E + 1\<rparr> else E)
      else if key = KEY_LEFT then
        (if cursor_x E > 0 then E\<lparr>cursor_x := cursor_x E - 1\<rparr> else E)
      else if key = KEY_RIGHT then
        (if cursor_x E < screencols E - 1 then E\<lparr>cursor_x := cursor_x E + 1\<rparr> else E)
      else if key = KEY_HOME then E\<lparr>cursor_x := 0\<rparr>
      else if key = KEY_END then E\<lparr>cursor_x := screencols E - 1\<rparr>
      else if key = KEY_PAGE_UP then E\<lparr>cursor_y := 0\<rparr>
      else if key = KEY_PAGE_DOWN then E\<lparr>cursor_y := screenrows E - 1\<rparr>
      else E)"

text \<open>
  The positions the spec calls valid: the extent is positive and the cursor lies in
  \<open>[0, rows) \<times> [0, cols)\<close>.
\<close>

definition in_bounds :: "editorState \<Rightarrow> bool" where
  "in_bounds E \<longleftrightarrow>
     0 < screenrows E \<and> 0 < screencols E \<and>
     0 \<le> cursor_y E \<and> cursor_y E < screenrows E \<and>
     0 \<le> cursor_x E \<and> cursor_x E < screencols E"

section \<open>The byte source and the key decoder\<close>

text \<open>
  \<^verbatim>\<open>read(STDIN_FILENO, &c, 1)\<close> in raw mode (\<^verbatim>\<open>VMIN = 0\<close>, \<^verbatim>\<open>VTIME = 1\<close>) returns \<open>1\<close> with a
  byte, \<open>0\<close> when the timeout passes with no byte, or \<open>-1\<close> with \<^verbatim>\<open>errno\<close> set. The
  byte source is the list of the results of the successive calls; once the list is used up
  every further call returns \<open>0\<close> (nothing more ever arrives).
\<close>

datatype errno = EAGAIN | EOTHER

datatype read_result = Byte char | NoData | ReadError errno

definition read1 :: "read_result list \<Rightarrow> read_result \<times> read_result list" where
  "read1 src = (case src of [] \<Rightarrow> (NoData, []) | r # rest \<Rightarrow> (r, rest))"

text \<open>
  What the C implementation leaves open: whether plain \<^verbatim>\<open>char\<close> is signed (it decides the
  \<^verbatim>\<open>int\<close> that \<^verbatim>\<open>return c\<close> yields for a byte above \<open>0x7F\<close>), and which requests
  \<^verbatim>\<open>realloc\<close> grants (by the size asked for).
\<close>

record platform =
  char_signed :: bool
  realloc_ok :: "nat \<Rightarrow> bool"

definition char_to_int :: "platform \<Rightarrow> char \<Rightarrow> int" where
  "char_to_int P c =
     (if char_signed P \<and> 128 \<le> (of_char c :: int) then of_char c - 256 else of_char c)"

abbreviation ESC :: char where "ESC \<equiv> CHR 0x1B"

text \<open>\<^verbatim>\<open>die(s)\<close>: \<^verbatim>\<open>perror(s); exit(1)\<close>. \<open>Undefined\<close>: the C code has no defined behaviour.\<close>

datatype error = Died string | Undefined

definition is_digit :: "char \<Rightarrow> bool" where
  "is_digit c \<longleftrightarrow> (48::nat) \<le> of_char c \<and> (of_char c :: nat) \<le> 57"

text \<open>
  The first loop of \<^verbatim>\<open>readKey\<close>: it reads until a call returns \<open>1\<close>, and dies on an error
  other than \<^verbatim>\<open>EAGAIN\<close>. On a source that never delivers a byte it does not return:
  \<open>None\<close>.
\<close>

fun readKey_wait :: "read_result list \<Rightarrow> (error + char \<times> read_result list) option" where
  "readKey_wait [] = None"
| "readKey_wait (Byte c # src) = Some (Inr (c, src))"
| "readKey_wait (NoData # src) = readKey_wait src"
| "readKey_wait (ReadError e # src) =
     (if e \<noteq> EAGAIN then Some (Inl (Died ''read'')) else readKey_wait src)"

text \<open>The body of \<^verbatim>\<open>if (c == '\x1b')\<close>: at most three further reads, then the tables.\<close>

definition readKey_escape :: "read_result list \<Rightarrow> int \<times> read_result list" where
  "readKey_escape src =
     (case read1 src of
        (Byte seq0, src1) \<Rightarrow>
          (case read1 src1 of
             (Byte seq1, src2) \<Rightarrow>
               if seq0 = CHR ''['' then
                 if is_digit seq1 then
                   (case read1 src2 of
                      (Byte seq2, src3) \<Rightarrow>
                        if seq2 = CHR ''~'' then
                          if seq1 = CHR ''1'' then (KEY_HOME, src3)
                          else if seq1 = CHR ''3'' then (KEY_DEL, src3)
                          else if seq1 = CHR ''4'' then (KEY_END, src3)
                          else if seq1 = CHR ''5'' then (KEY_PAGE_UP, src3)
                          else if seq1 = CHR ''6'' then (KEY_PAGE_DOWN, src3)
                          else if seq1 = CHR ''7'' then (KEY_HOME, src3)
                          else if seq1 = CHR ''8'' then (KEY_END, src3)
                          else (KEY_ESC, src3)
                        else (KEY_ESC, src3)
                    | (_, src3) \<Rightarrow> (KEY_ESC, src3))
                 else if seq1 = CHR ''A'' then (KEY_UP, src2)
                 else if seq1 = CHR ''B'' then (KEY_DOWN, src2)
                 else if seq1 = CHR ''C'' then (KEY_RIGHT, src2)
                 else if seq1 = CHR ''D'' then (KEY_LEFT, src2)
                 else if seq1 = CHR ''H'' then (KEY_HOME, src2)
                 else if seq1 = CHR ''F'' then (KEY_END, src2)
                 else (KEY_ESC, src2)
               else if seq0 = CHR ''O'' then
                 if seq1 = CHR ''H'' then (KEY_HOME, src2)
                 else if seq1 = CHR ''F'' then (KEY_END, src2)
                 else (KEY_ESC, src2)
               else (KEY_ESC, src2)
           | (_, src2) \<Rightarrow> (KEY_ESC, src2))
      | (_, src1) \<Rightarrow> (KEY_ESC, src1))"

definition readKey :: "platform \<Rightarrow> read_result list \<Rightarrow> (error + int \<times> read_result list) option" where
  "readKey P src =
     (case readKey_wait src of
        None \<Rightarrow> None
      | Some (Inl e) \<Rightarrow> Some (Inl e)
      | Some (Inr (c, src0)) \<Rightarrow>
          if c = ESC then Some (Inr (readKey_escape src0))
          else Some (Inr (char_to_int P c, src0)))"

text \<open>
  The recognized escape sequences of the spec (the bytes after \<open>ESC\<close>) with the key each
  stands for, written from the spec's tables; \<open>recognized rest\<close> says that the source
  \<open>rest\<close> begins with one of them.
\<close>

definition escape_table :: "(string \<times> int) list" where
  "escape_table =
     [(''[A'', KEY_UP), (''[B'', KEY_DOWN), (''[C'', KEY_RIGHT), (''[D'', KEY_LEFT),
      (''[H'', KEY_HOME), (''[F'', KEY_END),
      (''[1~'', KEY_HOME), (''[7~'', KEY_HOME), (''[3~'', KEY_DEL),
      (''[4~'', KEY_END), (''[8~'', KEY_END), (''[5~'', KEY_PAGE_UP), (''[6~'', KEY_PAGE_DOWN),
      (''OH'', KEY_HOME), (''OF'', KEY_END)]"

definition recognized :: "read_result list \<Rightarrow> bool" where
  "recognized rest \<longleftrightarrow>
     list_ex (\<lambda>(s, k). take (length s) rest = map Byte s) escape_table"

text \<open>Reads that return \<open>0\<close> or fail with \<^verbatim>\<open>EAGAIN\<close>: the decoder's first loop skips them.\<close>

definition idle :: "read_result list \<Rightarrow> bool" where
  "idle pre \<longleftrightarrow> list_all (\<lambda>r. r = NoData \<or> r = ReadError EAGAIN) pre"

section \<open>The C library calls of the compositor\<close>

text \<open>
  \<^verbatim>\<open>printf\<close>'s \<^verbatim>\<open>%d\<close>: the decimal digits of the number, with a minus sign when it is
  negative.
\<close>

fun dec_nat :: "nat \<Rightarrow> string" where
  "dec_nat n =
     (if n < 10 then [char_of (48 + n)]
      else dec_nat (n div 10) @ [char_of (48 + n mod 10)])"

declare dec_nat.simps [simp del]

definition dec :: "int \<Rightarrow> string" where
  "dec i = (if i < 0 then CHR ''-'' # dec_nat (nat (- i)) else dec_nat (nat i))"

abbreviation NUL :: char where "NUL \<equiv> CHR 0x00"

text \<open>
  \<^verbatim>\<open>snprintf(buf, sz, ...)\<close> for the formatted text \<open>s\<close>: the array holds the first
  \<open>sz - 1\<close> bytes of \<open>s\<close> and a terminating NUL (the bytes after it are not
  initialised and are not part of the model); the value returned is the length of the whole
  of \<open>s\<close>.
\<close>

definition snprintf :: "nat \<Rightarrow> string \<Rightarrow> string \<times> int" where
  "snprintf sz s = (take (sz - 1) s @ [NUL], int (length s))"

definition strlen :: "string \<Rightarrow> int" where
  "strlen buf = int (length (takeWhile (\<lambda>c. c \<noteq> NUL) buf))"

text \<open>C's integer division truncates towards zero.\<close>

definition c_div :: "int \<Rightarrow> int \<Rightarrow> int" where
  "c_div a b = sgn a * sgn b * (\<bar>a\<bar> div \<bar>b\<bar>)"

section \<open>The append buffer and the frame (src/main.c)\<close>

text \<open>
  \<^verbatim>\<open>struct appendBuffer\<close> holds a block \<^verbatim>\<open>b\<close> of exactly \<^verbatim>\<open>len\<close> bytes: it is the list of
  those bytes, and \<^verbatim>\<open>AB_INIT\<close> is the empty list. \<^verbatim>\<open>abAppend(ab, s, len)\<close> asks \<^verbatim>\<open>realloc\<close>
  for \<^verbatim>\<open>ab->len + len\<close> bytes, a sum of two \<^verbatim>\<open>int\<close>: past \<^verbatim>\<open>INT_MAX\<close> it wraps and is
  negative. It returns without appending when the request is refused; a negative sum,
  converted to \<^verbatim>\<open>size_t\<close>, is a request beyond any address space and is always refused, so
  the buffer never grows past \<^verbatim>\<open>INT_MAX\<close> bytes. Otherwise \<^verbatim>\<open>memcpy\<close> copies \<open>len\<close> bytes
  of \<open>s\<close>: with a negative \<open>len\<close>, or one beyond the bytes of \<open>s\<close> that are defined, C
  gives this no meaning, and the model answers \<open>None\<close>.
\<close>

definition abAppend :: "platform \<Rightarrow> string \<Rightarrow> string \<Rightarrow> int \<Rightarrow> string option" where
  "abAppend P ab s len =
     (let n = wrap_int (int (length ab) + len) in
      if n < 0 \<or> \<not> realloc_ok P (nat n) then Some ab
      else if len < 0 \<or> int (length s) < len then None
      else Some (ab @ take (nat len) s))"

text \<open>
  \<^verbatim>\<open>while (padding--) abAppend(ab, " ", 1);\<close> A negative count would run down through
  \<^verbatim>\<open>INT_MIN\<close>; it never arises, and the model answers \<open>None\<close> for it.
\<close>

function drawWelcome_pad :: "platform \<Rightarrow> int \<Rightarrow> string \<Rightarrow> string option" where
  "drawWelcome_pad P padding ab =
     (if padding = 0 then Some ab
      else if padding < 0 then None
      else (case abAppend P ab '' '' 1 of
              None \<Rightarrow> None
            | Some ab' \<Rightarrow> drawWelcome_pad P (padding - 1) ab'))"
  by pat_completeness auto
termination
  by (relation "measure (\<lambda>(P, padding, ab). nat padding)") auto

declare drawWelcome_pad.simps [simp del]

text \<open>
  \<^verbatim>\<open>drawWelcome\<close>, with the banner text as a parameter: the source formats the literal
  \<open>welcome_text\<close> into \<^verbatim>\<open>char welcome[80]\<close>.
\<close>

definition welcome_text :: string where
  "welcome_text = ''Tiny Editor -- version 0.0.1''"

definition drawWelcome_text :: "platform \<Rightarrow> string \<Rightarrow> editorState \<Rightarrow> string \<Rightarrow> string option" where
  "drawWelcome_text P text E ab =
     (let (welcome, welcomelen0) = snprintf 80 text;
          welcomelen = (if welcomelen0 > screencols E then screencols E else welcomelen0);
          padding = c_div (screencols E - welcomelen) 2
      in do {
        (ab1, padding1) \<leftarrow>
          (if padding \<noteq> 0 then do { ab' \<leftarrow> abAppend P ab ''~'' 1; Some (ab', padding - 1) }
           else Some (ab, padding));
        ab2 \<leftarrow> drawWelcome_pad P padding1 ab1;
        abAppend P ab2 welcome welcomelen
      })"

definition drawWelcome :: "platform \<Rightarrow> editorState \<Rightarrow> string \<Rightarrow> string option" where
  "drawWelcome P E ab = drawWelcome_text P welcome_text E ab"

text \<open>The \<^verbatim>\<open>for\<close> loop of \<^verbatim>\<open>refreshScreen\<close> over the rows, from row \<open>y\<close> on.\<close>

function refreshScreen_rows :: "platform \<Rightarrow> editorState \<Rightarrow> int \<Rightarrow> string \<Rightarrow> string option" where
  "refreshScreen_rows P E y ab =
     (if y < screenrows E then
        (case (let (line, linelen) = snprintf 32 (dec (y + 1) @ '' '')
               in if linelen > 0 then abAppend P ab line linelen else Some ab) of
           None \<Rightarrow> None
         | Some ab1 \<Rightarrow>
            (case (if y = 0 then drawWelcome P E ab1 else abAppend P ab1 ''~'' 1) of
               None \<Rightarrow> None
             | Some ab2 \<Rightarrow>
                (case abAppend P ab2 (ESC # ''[K'') 3 of
                   None \<Rightarrow> None
                 | Some ab3 \<Rightarrow>
                    (case (if y < screenrows E - 1 then abAppend P ab3 [CHR 0x0D, CHR 0x0A] 2
                           else Some ab3) of
                       None \<Rightarrow> None
                     | Some ab4 \<Rightarrow> refreshScreen_rows P E (y + 1) ab4))))
      else Some ab)"
  by pat_completeness auto
termination
  by (relation "measure (\<lambda>(P, E, y, ab). nat (screenrows E - y))") auto

declare refreshScreen_rows.simps [simp del]

text \<open>
  The status text \<^verbatim>\<open>"[Cursor: %d,%d] [Size: %d\<times>%d]"\<close>; the multiplication sign of the source
  is the two bytes \<open>0xC3 0x97\<close> of its UTF-8 encoding.
\<close>

definition status_text :: "editorState \<Rightarrow> string" where
  "status_text E =
     ''[Cursor: '' @ dec (cursor_y E + 1) @ '','' @ dec (cursor_x E + 1) @
     ''] [Size: '' @ dec (screencols E) @ [CHR 0xC3, CHR 0x97] @ dec (screenrows E) @ '']''"

definition cursor_text :: "editorState \<Rightarrow> string" where
  "cursor_text E = ESC # ''['' @ dec (cursor_y E + 1) @ '';'' @ dec (cursor_x E + 1) @ ''H''"

text \<open>
  \<^verbatim>\<open>refreshScreen\<close>: the result is the buffer handed to the single \<^verbatim>\<open>write\<close> of the frame.
\<close>

definition refreshScreen :: "platform \<Rightarrow> editorState \<Rightarrow> string option" where
  "refreshScreen P E = do {
     ab1 \<leftarrow> abAppend P [] (ESC # ''[?25l'') 6;
     ab2 \<leftarrow> abAppend P ab1 (ESC # ''[H'') 3;
     ab3 \<leftarrow> refreshScreen_rows P E 0 ab2;
     let (status, statuslen0) = snprintf 80 (status_text E);
     let statuslen = (if statuslen0 > screencols E then screencols E else statuslen0);
     ab4 \<leftarrow> abAppend P ab3 (ESC # ''[999C'') 6;
     ab5 \<leftarrow> abAppend P ab4 (ESC # ''[1A'') 4;
     ab6 \<leftarrow> abAppend P ab5 (ESC # ''[7m'') 4;
     ab7 \<leftarrow> abAppend P ab6 status statuslen;
     ab8 \<leftarrow> abAppend P ab7 (ESC # ''[m'') 3;
     let (buf, n) = snprintf 32 (cursor_text E);
     ab9 \<leftarrow> abAppend P ab8 buf (strlen buf);
     abAppend P ab9 (ESC # ''[?25h'') 6
   }"

section \<open>The main loop (src/main.c)\<close>

text \<open>
  Standard output is the list of the buffers passed to the successive \<^verbatim>\<open>write\<close> calls on
  \<^verbatim>\<open>STDOUT_FILENO\<close> (their return values are not looked at by the code).
\<close>

definition clearScreen :: "string list \<Rightarrow> string list" where
  "clearScreen out = out @ [ESC # ''[2J'', ESC # ''[H'']"

datatype step =
  Continue editorState "read_result list" "string list"
  | Quit editorState "read_result list" "string list"

text \<open>
  One pass through the body of \<^verbatim>\<open>while (1)\<close>: the frame, the key, the quit test, the
  \<^verbatim>\<open>switch\<close>. \<open>None\<close>: \<open>readKey\<close> never returns.
\<close>

definition loop_body ::
  "platform \<Rightarrow> editorState \<Rightarrow> read_result list \<Rightarrow> string list \<Rightarrow> (error + step) option" where
  "loop_body P E src out =
     (case refreshScreen P E of
        None \<Rightarrow> Some (Inl Undefined)
      | Some frame \<Rightarrow>
         (case readKey P src of
            None \<Rightarrow> None
          | Some (Inl e) \<Rightarrow> Some (Inl e)
          | Some (Inr (c, src')) \<Rightarrow>
              if c = of_char CHR ''q'' \<or> c = KEY_ESC then
                Some (Inr (Quit E src' (clearScreen (out @ [frame]))))
              else if c = KEY_UP \<or> c = KEY_DOWN \<or> c = KEY_LEFT \<or> c = KEY_RIGHT
                      \<or> c = KEY_HOME \<or> c = KEY_END \<or> c = KEY_PAGE_UP \<or> c = KEY_PAGE_DOWN then
                Some (Inr (Continue (moveCursor c E) src' (out @ [frame])))
              else Some (Inr (Continue E src' (out @ [frame])))))"

lemma readKey_wait_shorter:
  "readKey_wait src = Some (Inr (c, src')) \<Longrightarrow> length src' < length src"
  by (induction src rule: readKey_wait.induct) (auto split: if_splits)

lemma readKey_escape_shorter: "length (snd (readKey_escape src)) \<le> length src"
  by (auto simp: readKey_escape_def read1_def split: list.splits read_result.splits)

lemma readKey_shorter:
  assumes "readKey P src = Some (Inr (c, src'))"
  shows "length src' < length src"
proof -
  from assms obtain b src0 where w: "readKey_wait src = Some (Inr (b, src0))"
    and r: "(c, src') = (if b = ESC then readKey_escape src0 else (char_to_int P b, src0))"
    by (auto simp: readKey_def split: option.splits sum.splits if_splits)
  from r have "length src' \<le> length src0"
    using readKey_escape_shorter [of src0] by (cases "b = ESC") (auto simp: prod_eq_iff)
  with readKey_wait_shorter [OF w] show ?thesis by simp
qed

lemma loop_body_shorter:
  "loop_body P E src out = Some (Inr (Continue E' src' out')) \<Longrightarrow> length src' < length src"
  by (auto simp: loop_body_def split: option.splits sum.splits if_splits dest: readKey_shorter)

text \<open>
  The loop of \<^verbatim>\<open>main\<close>. Every pass consumes at least one read of a finite source, so the
  recursion is well-founded; \<open>None\<close> is the run that waits for a key for ever.
\<close>

function main_loop ::
  "platform \<Rightarrow> editorState \<Rightarrow> read_result list \<Rightarrow> string list
     \<Rightarrow> (error + editorState \<times> read_result list \<times> string list) option" where
  "main_loop P E src out =
     (case loop_body P E src out of
        None \<Rightarrow> None
      | Some (Inl e) \<Rightarrow> Some (Inl e)
      | Some (Inr (Quit E' src' out')) \<Rightarrow> Some (Inr (E', src', out'))
      | Some (Inr (Continue E' src' out')) \<Rightarrow> main_loop P E' src' out')"
  by pat_completeness auto
termination
  by (relation "measure (\<lambda>(P, E, src, out). length src)") (auto dest: loop_body_shorter)

declare main_loop.simps [simp del]

text \<open>
  The confirmation line that \<^verbatim>\<open>main\<close> prints after the loop, as the bytes of its UTF-8
  encoding, and \<^verbatim>\<open>main\<close> from the loop on (the editor state is what \<^verbatim>\<open>initEditor\<close> left):
  the result is the exit status with the final state, the unread source and the output.
\<close>

definition goodbye :: string where
  "goodbye = map char_of
     [231, 187, 136, 231, 171, 175, 229, 142, 159, 229, 167, 139, 230, 168, 161, 229, 188,
      143, 229, 183, 178, 231, 166, 129, 231, 148, 168, 239, 188, 140, 230, 129, 162, 229,
      164, 141, 230, 160, 135, 229, 135, 134, 232, 174, 190, 231, 189, 174, 227, 128, 130,
      13, 10 :: nat]"

definition main_from_loop ::
  "platform \<Rightarrow> editorState \<Rightarrow> read_result list \<Rightarrow> string list
     \<Rightarrow> (error + int \<times> editorState \<times> read_result list \<times> string list) option" where
  "main_from_loop P E src out =
     (case main_loop P E src out of
        None \<Rightarrow> None
      | Some (Inl e) \<Rightarrow> Some (Inl e)
      | Some (Inr (E', src', out')) \<Rightarrow> Some (Inr (0, E', src', out' @ [goodbye])))"

section \<open>The cursor-position query (src/main.c)\<close>











section \<open>Raw mode (src/main.c and src/raw_mode_editor.c)\<close>

text \<open>
  \<^verbatim>\<open>struct termios\<close> and the flag macros come from the system's \<^verbatim>\<open>termios.h\<close>. The record
  has the members POSIX requires; members a system adds are the record's extension, which a
  struct copy carries along. The macros are parameters: one record of their values, the
  flags as bit masks and \<^verbatim>\<open>VMIN\<close>, \<^verbatim>\<open>VTIME\<close> as indices into \<^verbatim>\<open>c_cc\<close>.
\<close>

record termios =
  c_iflag :: "32 word"
  c_oflag :: "32 word"
  c_cflag :: "32 word"
  c_lflag :: "32 word"
  c_cc :: "8 word list"

record termios_consts =
  BRKINT :: "32 word"
  ICRNL :: "32 word"
  INPCK :: "32 word"
  ISTRIP :: "32 word"
  IXON :: "32 word"
  OPOST :: "32 word"
  CS8 :: "32 word"
  ECHO :: "32 word"
  ICANON :: "32 word"
  IEXTEN :: "32 word"
  ISIG :: "32 word"
  VMIN :: nat
  VTIME :: nat

text \<open>
  The terminal and the process: the attributes the terminal driver holds (what
  \<^verbatim>\<open>tcgetattr\<close> reads and \<^verbatim>\<open>tcsetattr\<close> replaces), the static \<^verbatim>\<open>orig_termios\<close>, and the
  functions registered with \<^verbatim>\<open>atexit\<close>.
\<close>

datatype exit_handler = DisableRawMode

record 'a tty =
  line_attrs :: "'a termios_scheme"
  orig_termios :: "'a termios_scheme"
  atexit_handlers :: "exit_handler list"

text \<open>\<^verbatim>\<open>disableRawMode\<close>; \<open>set_ok\<close> says that \<^verbatim>\<open>tcsetattr\<close> did not return \<open>-1\<close>.\<close>

definition disableRawMode :: "bool \<Rightarrow> 'a tty \<Rightarrow> error + 'a tty" where
  "disableRawMode set_ok T =
     (if \<not> set_ok then Inl (Died ''tcsetattr'')
      else Inr (T\<lparr>line_attrs := orig_termios T\<rparr>))"

text \<open>The assignments to \<^verbatim>\<open>raw\<close> in \<^verbatim>\<open>enableRawMode\<close>, in the order of the source.\<close>

definition make_raw :: "termios_consts \<Rightarrow> 'a termios_scheme \<Rightarrow> 'a termios_scheme" where
  "make_raw K orig =
     (let raw = orig;
          raw = raw\<lparr>c_iflag := c_iflag raw AND NOT (BRKINT K OR ICRNL K OR INPCK K OR ISTRIP K OR IXON K)\<rparr>;
          raw = raw\<lparr>c_oflag := c_oflag raw AND NOT (OPOST K)\<rparr>;
          raw = raw\<lparr>c_cflag := c_cflag raw OR CS8 K\<rparr>;
          raw = raw\<lparr>c_lflag := c_lflag raw AND NOT (ECHO K OR ICANON K OR IEXTEN K OR ISIG K)\<rparr>;
          raw = raw\<lparr>c_cc := (c_cc raw)[VMIN K := 0]\<rparr>;
          raw = raw\<lparr>c_cc := (c_cc raw)[VTIME K := 1]\<rparr>
      in raw)"

text \<open>
  \<^verbatim>\<open>enableRawMode\<close>; \<open>get_ok\<close> and \<open>set_ok\<close> say that \<^verbatim>\<open>tcgetattr\<close> and \<^verbatim>\<open>tcsetattr\<close> did
  not return \<open>-1\<close>.
\<close>

definition enableRawMode :: "termios_consts \<Rightarrow> bool \<Rightarrow> bool \<Rightarrow> 'a tty \<Rightarrow> error + 'a tty" where
  "enableRawMode K get_ok set_ok T =
     (if \<not> get_ok then Inl (Died ''tcgetattr'')
      else
        (let T1 = T\<lparr>orig_termios := line_attrs T\<rparr>;
             T2 = T1\<lparr>atexit_handlers := DisableRawMode # atexit_handlers T1\<rparr>;
             raw = make_raw K (orig_termios T2)
         in if \<not> set_ok then Inl (Died ''tcsetattr'')
            else Inr (T2\<lparr>line_attrs := raw\<rparr>)))"

text \<open>
  An instance for the examples: the values of the macros on Linux, and the attributes of a
  terminal in its usual cooked mode.
\<close>

definition linux_consts :: termios_consts where
  "linux_consts =
     \<lparr>BRKINT = 0x2, ICRNL = 0x100, INPCK = 0x10, ISTRIP = 0x20, IXON = 0x400, OPOST = 0x1,
      CS8 = 0x30, ECHO = 0x8, ICANON = 0x2, IEXTEN = 0x8000, ISIG = 0x1, VMIN = 6, VTIME = 5\<rparr>"

definition cooked :: termios where
  "cooked = \<lparr>c_iflag = 0x4500, c_oflag = 0x5, c_cflag = 0xBF, c_lflag = 0x8A3B,
            c_cc = [3, 28, 127, 21, 4, 0, 1, 0, 17, 19, 26, 0, 18, 15, 23, 22, 0, 0, 0]\<rparr>"






section \<open>The terminal's cursor\<close>








section \<open>Cursor movement\<close>

lemma moveCursor_extent:
  "screenrows (moveCursor key E) = screenrows E \<and> screencols (moveCursor key E) = screencols E"
  by (simp add: moveCursor_def)

text \<open>
  Claim C1. From a cursor inside \<open>[0, rows) \<times> [0, cols)\<close> of a positive extent, \<open>moveCursor\<close>
  with any key (the eight navigation keys and every other integer) gives a cursor inside
  the same bounds and leaves the extent alone. Up, Down, Left and Right move by one and stop
  at the bound; Home and End set the column to \<open>0\<close> and \<open>cols - 1\<close>; PageUp and PageDown set
  the row to \<open>0\<close> and \<open>rows - 1\<close>; each key leaves the other coordinate unchanged.
\<close>

theorem moveCursor_in_bounds:
  assumes "in_bounds E"
  shows "in_bounds (moveCursor key E)
    \<and> screenrows (moveCursor key E) = screenrows E
    \<and> screencols (moveCursor key E) = screencols E
    \<and> moveCursor KEY_UP E = E\<lparr>cursor_y := max 0 (cursor_y E - 1)\<rparr>
    \<and> moveCursor KEY_DOWN E = E\<lparr>cursor_y := min (screenrows E - 1) (cursor_y E + 1)\<rparr>
    \<and> moveCursor KEY_LEFT E = E\<lparr>cursor_x := max 0 (cursor_x E - 1)\<rparr>
    \<and> moveCursor KEY_RIGHT E = E\<lparr>cursor_x := min (screencols E - 1) (cursor_x E + 1)\<rparr>
    \<and> moveCursor KEY_HOME E = E\<lparr>cursor_x := 0\<rparr>
    \<and> moveCursor KEY_END E = E\<lparr>cursor_x := screencols E - 1\<rparr>
    \<and> moveCursor KEY_PAGE_UP E = E\<lparr>cursor_y := 0\<rparr>
    \<and> moveCursor KEY_PAGE_DOWN E = E\<lparr>cursor_y := screenrows E - 1\<rparr>"
proof -
  have inb: "in_bounds (moveCursor key E)"
    using assms by (auto simp: moveCursor_def in_bounds_def)
  have up: "moveCursor KEY_UP E = E\<lparr>cursor_y := max 0 (cursor_y E - 1)\<rparr>"
    using assms by (simp add: moveCursor_def in_bounds_def max_def)
  have down: "moveCursor KEY_DOWN E = E\<lparr>cursor_y := min (screenrows E - 1) (cursor_y E + 1)\<rparr>"
    using assms by (simp add: moveCursor_def in_bounds_def min_def)
  have left: "moveCursor KEY_LEFT E = E\<lparr>cursor_x := max 0 (cursor_x E - 1)\<rparr>"
    using assms by (simp add: moveCursor_def in_bounds_def max_def)
  have right: "moveCursor KEY_RIGHT E = E\<lparr>cursor_x := min (screencols E - 1) (cursor_x E + 1)\<rparr>"
    using assms by (simp add: moveCursor_def in_bounds_def min_def)
  have rest: "moveCursor KEY_HOME E = E\<lparr>cursor_x := 0\<rparr>"
    "moveCursor KEY_END E = E\<lparr>cursor_x := screencols E - 1\<rparr>"
    "moveCursor KEY_PAGE_UP E = E\<lparr>cursor_y := 0\<rparr>"
    "moveCursor KEY_PAGE_DOWN E = E\<lparr>cursor_y := screenrows E - 1\<rparr>"
    by (simp_all add: moveCursor_def)
  from inb moveCursor_extent [of key E] up down left right rest show ?thesis by blast
qed

theorem moveCursor_in_bounds_witness:
  "in_bounds \<lparr>screenrows = 24, screencols = 80, cursor_x = 79, cursor_y = 0\<rparr>
   \<and> in_bounds (moveCursor KEY_RIGHT \<lparr>screenrows = 24, screencols = 80, cursor_x = 79, cursor_y = 0\<rparr>)
   \<and> moveCursor KEY_UP \<lparr>screenrows = 24, screencols = 80, cursor_x = 79, cursor_y = 0\<rparr>
       = \<lparr>screenrows = 24, screencols = 80, cursor_x = 79, cursor_y = 0\<rparr>
   \<and> moveCursor KEY_DOWN \<lparr>screenrows = 24, screencols = 80, cursor_x = 79, cursor_y = 0\<rparr>
       = \<lparr>screenrows = 24, screencols = 80, cursor_x = 79, cursor_y = 1\<rparr>"
proof -
  let ?E = "\<lparr>screenrows = 24, screencols = 80, cursor_x = 79, cursor_y = 0\<rparr>"
  have h: "in_bounds ?E" by (simp add: in_bounds_def)
  from moveCursor_in_bounds [OF h, of KEY_RIGHT] h show ?thesis by simp
qed

section \<open>Key decoding\<close>

lemma readKey_wait_idle:
  "idle pre \<Longrightarrow> readKey_wait (pre @ Byte c # rest) = Some (Inr (c, rest))"
  by (induction pre) (auto simp: idle_def)

lemma readKey_ESC:
  "idle pre \<Longrightarrow> readKey P (pre @ Byte ESC # rest) = Some (Inr (readKey_escape rest))"
  by (simp add: readKey_def readKey_wait_idle)

lemma readKey_escape_key:
  "fst (readKey_escape rest) \<noteq> KEY_ESC \<Longrightarrow> recognized rest"
  unfolding recognized_def escape_table_def readKey_escape_def read1_def
  by (auto split: list.splits read_result.splits if_splits)

lemma readKey_escape_rest:
  "\<exists>n\<le>3. snd (readKey_escape rest) = drop n rest"
proof -
  have "snd (readKey_escape rest) = drop 1 rest \<or> snd (readKey_escape rest) = drop 2 rest
      \<or> snd (readKey_escape rest) = drop 3 rest"
    by (auto simp: readKey_escape_def read1_def split: list.splits read_result.splits)
  then consider "snd (readKey_escape rest) = drop 1 rest" | "snd (readKey_escape rest) = drop 2 rest"
    | "snd (readKey_escape rest) = drop 3 rest" by blast
  then show ?thesis
  proof cases
    case 1 then show ?thesis by (intro exI[of _ 1]) simp
  next
    case 2 then show ?thesis by (intro exI[of _ 2]) simp
  next
    case 3 then show ?thesis by (intro exI[of _ 3]) simp
  qed
qed

lemma readKey_escape_unrecognized:
  assumes "\<not> recognized rest"
  shows "\<exists>n\<le>3. readKey_escape rest = (KEY_ESC, drop n rest)"
proof -
  from assms have "fst (readKey_escape rest) = KEY_ESC"
    using readKey_escape_key by blast
  moreover obtain n where "n \<le> 3" "snd (readKey_escape rest) = drop n rest"
    using readKey_escape_rest by blast
  ultimately have "n \<le> 3 \<and> readKey_escape rest = (KEY_ESC, drop n rest)"
    by (simp add: prod_eq_iff)
  then show ?thesis by blast
qed

text \<open>
  Claim C2. After the escape byte (and any reads that time out before it), the decoder maps
  \<open>ESC [ d ~\<close> for a digit \<open>d\<close> to Home (\<open>d\<close> is 1 or 7), Delete (3), End (4 or 8), PageUp (5),
  PageDown (6), and every other digit or terminator (also a read that brings no terminator)
  to Escape (27); \<open>ESC [\<close> followed by
  A, B, C, D, H, F to Up, Down, Right, Left, Home, End; \<open>ESC O H\<close> and \<open>ESC O F\<close> to Home and End.
  Exactly the bytes of the sequence are consumed.
\<close>

theorem readKey_tables:
  assumes "idle pre"
  shows "(is_digit d \<longrightarrow>
            readKey P (pre @ Byte ESC # Byte CHR ''['' # Byte d # Byte t # rest) =
              Some (Inr (if t = CHR ''~'' \<and> (d = CHR ''1'' \<or> d = CHR ''7'') then KEY_HOME
                         else if t = CHR ''~'' \<and> d = CHR ''3'' then KEY_DEL
                         else if t = CHR ''~'' \<and> (d = CHR ''4'' \<or> d = CHR ''8'') then KEY_END
                         else if t = CHR ''~'' \<and> d = CHR ''5'' then KEY_PAGE_UP
                         else if t = CHR ''~'' \<and> d = CHR ''6'' then KEY_PAGE_DOWN
                         else KEY_ESC, rest)))
    \<and> (is_digit d \<and> (\<forall>c. r \<noteq> Byte c) \<longrightarrow>
          readKey P (pre @ Byte ESC # Byte CHR ''['' # Byte d # r # rest) = Some (Inr (KEY_ESC, rest)))
    \<and> readKey P (pre @ Byte ESC # Byte CHR ''['' # Byte CHR ''A'' # rest) = Some (Inr (KEY_UP, rest))
    \<and> readKey P (pre @ Byte ESC # Byte CHR ''['' # Byte CHR ''B'' # rest) = Some (Inr (KEY_DOWN, rest))
    \<and> readKey P (pre @ Byte ESC # Byte CHR ''['' # Byte CHR ''C'' # rest) = Some (Inr (KEY_RIGHT, rest))
    \<and> readKey P (pre @ Byte ESC # Byte CHR ''['' # Byte CHR ''D'' # rest) = Some (Inr (KEY_LEFT, rest))
    \<and> readKey P (pre @ Byte ESC # Byte CHR ''['' # Byte CHR ''H'' # rest) = Some (Inr (KEY_HOME, rest))
    \<and> readKey P (pre @ Byte ESC # Byte CHR ''['' # Byte CHR ''F'' # rest) = Some (Inr (KEY_END, rest))
    \<and> readKey P (pre @ Byte ESC # Byte CHR ''O'' # Byte CHR ''H'' # rest) = Some (Inr (KEY_HOME, rest))
    \<and> readKey P (pre @ Byte ESC # Byte CHR ''O'' # Byte CHR ''F'' # rest) = Some (Inr (KEY_END, rest))"
proof -
  have digits: "is_digit d \<longrightarrow>
            readKey_escape (Byte CHR ''['' # Byte d # Byte t # rest) =
              (if t = CHR ''~'' \<and> (d = CHR ''1'' \<or> d = CHR ''7'') then KEY_HOME
                         else if t = CHR ''~'' \<and> d = CHR ''3'' then KEY_DEL
                         else if t = CHR ''~'' \<and> (d = CHR ''4'' \<or> d = CHR ''8'') then KEY_END
                         else if t = CHR ''~'' \<and> d = CHR ''5'' then KEY_PAGE_UP
                         else if t = CHR ''~'' \<and> d = CHR ''6'' then KEY_PAGE_DOWN
                         else KEY_ESC, rest)"
    by (simp add: readKey_escape_def read1_def)
  have cut: "is_digit d \<and> (\<forall>c. r \<noteq> Byte c) \<longrightarrow>
      readKey_escape (Byte CHR ''['' # Byte d # r # rest) = (KEY_ESC, rest)"
    by (cases r) (simp_all add: readKey_escape_def read1_def)
  have letters:
    "readKey_escape (Byte CHR ''['' # Byte CHR ''A'' # rest) = (KEY_UP, rest)"
    "readKey_escape (Byte CHR ''['' # Byte CHR ''B'' # rest) = (KEY_DOWN, rest)"
    "readKey_escape (Byte CHR ''['' # Byte CHR ''C'' # rest) = (KEY_RIGHT, rest)"
    "readKey_escape (Byte CHR ''['' # Byte CHR ''D'' # rest) = (KEY_LEFT, rest)"
    "readKey_escape (Byte CHR ''['' # Byte CHR ''H'' # rest) = (KEY_HOME, rest)"
    "readKey_escape (Byte CHR ''['' # Byte CHR ''F'' # rest) = (KEY_END, rest)"
    "readKey_escape (Byte CHR ''O'' # Byte CHR ''H'' # rest) = (KEY_HOME, rest)"
    "readKey_escape (Byte CHR ''O'' # Byte CHR ''F'' # rest) = (KEY_END, rest)"
    by (simp_all add: readKey_escape_def read1_def is_digit_def)
  show ?thesis
    using digits cut letters by (simp only: readKey_ESC [OF assms]) simp
qed

theorem readKey_tables_witness:
  "idle [NoData] \<and> is_digit CHR ''3'' \<and> NoData \<noteq> Byte CHR ''~''
   \<and> readKey \<lparr>char_signed = True, realloc_ok = (\<lambda>n. True)\<rparr>
        [NoData, Byte ESC, Byte CHR ''['', Byte CHR ''3'', Byte CHR ''~'', Byte CHR ''q'']
      = Some (Inr (KEY_DEL, [Byte CHR ''q'']))
   \<and> readKey \<lparr>char_signed = True, realloc_ok = (\<lambda>n. True)\<rparr>
        [NoData, Byte ESC, Byte CHR ''['', Byte CHR ''3'', NoData, Byte CHR ''q'']
      = Some (Inr (KEY_ESC, [Byte CHR ''q'']))
   \<and> readKey \<lparr>char_signed = True, realloc_ok = (\<lambda>n. True)\<rparr>
        [NoData, Byte ESC, Byte CHR ''['', Byte CHR ''A'', Byte CHR ''q'']
      = Some (Inr (KEY_UP, [Byte CHR ''q'']))"
proof -
  have h: "idle [NoData]" by (simp add: idle_def)
  have d: "is_digit CHR ''3''" by (simp add: is_digit_def)
  from readKey_tables [OF h, where d = "CHR ''3''" and t = "CHR ''~''" and r = NoData
      and rest = "[Byte CHR ''q'']" and P = "\<lparr>char_signed = True, realloc_ok = (\<lambda>n. True)\<rparr>"] h d
  show ?thesis by simp
qed

text \<open>
  Claim C4. Once the escape byte has been read, the decoder always returns a key: it neither
  blocks nor dies. With no further byte (the source is used up, or the next read returns 0
  or fails) it returns Escape (27); and whenever the reads that follow do not begin with a
  recognized sequence it returns Escape too, after at most three further reads.
\<close>

theorem readKey_escape_never_fails:
  assumes "idle pre"
  shows "(\<exists>k src'. readKey P (pre @ Byte ESC # rest) = Some (Inr (k, src')))
    \<and> readKey P (pre @ [Byte ESC]) = Some (Inr (KEY_ESC, []))
    \<and> ((\<forall>c. r \<noteq> Byte c) \<longrightarrow> readKey P (pre @ Byte ESC # r # rest) = Some (Inr (KEY_ESC, rest)))
    \<and> (\<not> recognized rest \<longrightarrow>
         (\<exists>n\<le>3. readKey P (pre @ Byte ESC # rest) = Some (Inr (KEY_ESC, drop n rest))))"
proof -
  have a: "\<exists>k src'. readKey P (pre @ Byte ESC # rest) = Some (Inr (k, src'))"
    by (simp add: readKey_ESC [OF assms] prod_eq_iff)
  have b: "readKey P (pre @ [Byte ESC]) = Some (Inr (KEY_ESC, []))"
    by (simp add: readKey_ESC [OF assms] readKey_escape_def read1_def)
  have c: "(\<forall>c. r \<noteq> Byte c) \<longrightarrow> readKey P (pre @ Byte ESC # r # rest) = Some (Inr (KEY_ESC, rest))"
    by (cases r) (simp_all add: readKey_ESC [OF assms] readKey_escape_def read1_def)
  have d: "\<not> recognized rest \<longrightarrow>
         (\<exists>n\<le>3. readKey P (pre @ Byte ESC # rest) = Some (Inr (KEY_ESC, drop n rest)))"
    using readKey_escape_unrecognized [of rest] by (simp add: readKey_ESC [OF assms])
  from a b c d show ?thesis by blast
qed

theorem readKey_escape_never_fails_witness:
  "idle [ReadError EAGAIN] \<and> \<not> recognized [Byte CHR ''['', Byte CHR ''Z'', Byte CHR ''x'']
   \<and> NoData \<noteq> Byte CHR ''a''
   \<and> readKey \<lparr>char_signed = False, realloc_ok = (\<lambda>n. True)\<rparr>
        [ReadError EAGAIN, Byte ESC, Byte CHR ''['', Byte CHR ''Z'', Byte CHR ''x'']
      = Some (Inr (KEY_ESC, [Byte CHR ''x'']))
   \<and> readKey \<lparr>char_signed = False, realloc_ok = (\<lambda>n. True)\<rparr>
        [ReadError EAGAIN, Byte ESC, NoData, Byte CHR ''['', Byte CHR ''Z'', Byte CHR ''x'']
      = Some (Inr (KEY_ESC, [Byte CHR ''['', Byte CHR ''Z'', Byte CHR ''x'']))"
proof -
  have h: "idle [ReadError EAGAIN]" by (simp add: idle_def)
  have u: "\<not> recognized [Byte CHR ''['', Byte CHR ''Z'', Byte CHR ''x'']"
    by (simp add: recognized_def escape_table_def)
  have k: "readKey \<lparr>char_signed = False, realloc_ok = (\<lambda>n. True)\<rparr>
        [ReadError EAGAIN, Byte ESC, Byte CHR ''['', Byte CHR ''Z'', Byte CHR ''x'']
      = Some (Inr (KEY_ESC, [Byte CHR ''x'']))"
    by (simp add: readKey_def readKey_escape_def read1_def is_digit_def)
  from readKey_escape_never_fails [OF h, of "\<lparr>char_signed = False, realloc_ok = (\<lambda>n. True)\<rparr>"
      "[Byte CHR ''['', Byte CHR ''Z'', Byte CHR ''x'']" NoData] h u k
  show ?thesis by simp
qed

section \<open>Decimal output\<close>

lemma dec_nat_length: "0 < k \<Longrightarrow> n < 10 ^ k \<Longrightarrow> length (dec_nat n) \<le> k"
proof (induction k arbitrary: n)
  case 0
  then show ?case by simp
next
  case (Suc k)
  show ?case
  proof (cases "n < 10")
    case True
    then show ?thesis by (subst dec_nat.simps) simp
  next
    case False
    with Suc.prems have k: "0 < k" by (cases k) auto
    from Suc.prems have "n div 10 < 10 ^ k"
      by (simp add: less_mult_imp_div_less mult.commute)
    from Suc.IH [OF k this] False show ?thesis
      by (subst dec_nat.simps) simp
  qed
qed

lemma dec_nat_digits: "c \<in> set (dec_nat n) \<Longrightarrow> is_digit c"
proof (induction n rule: dec_nat.induct)
  case (1 n)
  have d: "is_digit (char_of (48 + m))" if "m < 10" for m :: nat
    using that by (simp add: is_digit_def)
  show ?case
  proof (cases "n < 10")
    case True
    then have "dec_nat n = [char_of (48 + n)]" by (subst dec_nat.simps) simp
    with "1.prems" d [OF True] show ?thesis by simp
  next
    case False
    then have "dec_nat n = dec_nat (n div 10) @ [char_of (48 + n mod 10)]"
      by (subst dec_nat.simps) simp
    with "1.prems" have "c \<in> set (dec_nat (n div 10)) \<or> c = char_of (48 + n mod 10)"
      by auto
    with "1.IH" [OF False] d [of "n mod 10"] show ?thesis by auto
  qed
qed

lemma dec_length: "0 \<le> i \<Longrightarrow> c_int i \<Longrightarrow> length (dec i) \<le> 10"
proof -
  assume a: "0 \<le> i" "c_int i"
  then have "nat i < 10 ^ 10" by (simp add: c_int_def)
  from dec_nat_length [OF _ this] a show ?thesis by (simp add: dec_def)
qed

lemma dec_no_NUL: "0 \<le> i \<Longrightarrow> NUL \<notin> set (dec i)"
  using dec_nat_digits [of NUL "nat i"] by (auto simp: dec_def is_digit_def)

section \<open>The welcome banner\<close>

lemma abAppend_some:
  "0 \<le> len \<Longrightarrow> len \<le> int (length s) \<Longrightarrow>
     \<exists>added. abAppend P ab s len = Some (ab @ added) \<and> int (length added) \<le> len"
  by (auto simp: abAppend_def Let_def)




lemma drawWelcome_pad_some:
  "0 \<le> padding \<Longrightarrow>
     \<exists>added. drawWelcome_pad P padding ab = Some (ab @ added) \<and> int (length added) \<le> padding"
proof (induction P padding ab rule: drawWelcome_pad.induct)
  case (1 P padding ab)
  show ?case
  proof (cases "padding = 0")
    case True
    then show ?thesis by (simp add: drawWelcome_pad.simps)
  next
    case False
    with "1.prems" have pos: "0 < padding" by simp
    obtain a where a: "abAppend P ab '' '' 1 = Some (ab @ a)" "int (length a) \<le> 1"
      using abAppend_some [of 1 "'' ''" P ab] by auto
    from "1.IH" [OF False _ a(1)] pos
    obtain b where b: "drawWelcome_pad P (padding - 1) (ab @ a) = Some ((ab @ a) @ b)"
      "int (length b) \<le> padding - 1" by auto
    have "drawWelcome_pad P padding ab = Some (ab @ (a @ b))"
      using False pos a b by (subst drawWelcome_pad.simps) simp
    moreover have "int (length (a @ b)) \<le> padding" using a b by simp
    ultimately show ?thesis by blast
  qed
qed


lemma c_div_nonneg: "0 \<le> a \<Longrightarrow> c_div a 2 = a div 2"
  by (cases "a = 0") (simp_all add: c_div_def)


lemma drawWelcome_text_unfold:
  "drawWelcome_text P text E ab =
     (let w = min (int (length text)) (screencols E); p = c_div (screencols E - w) 2 in
      Option.bind
        (if p \<noteq> 0 then Option.bind (abAppend P ab ''~'' 1) (\<lambda>ab'. Some (ab', p - 1))
         else Some (ab, p))
        (\<lambda>(ab1, p1). Option.bind (drawWelcome_pad P p1 ab1)
           (\<lambda>ab2. abAppend P ab2 (take 79 text @ [NUL]) w)))"
  by (simp add: drawWelcome_text_def snprintf_def Let_def min_def)

lemma drawWelcome_text_some:
  assumes cols: "0 \<le> screencols E"
    and fits: "int (length text) \<le> 79 \<or> screencols E \<le> 80"
  shows "\<exists>added. drawWelcome_text P text E ab = Some (ab @ added)
           \<and> int (length added) \<le> screencols E"
proof -
  define w where "w = min (int (length text)) (screencols E)"
  define p where "p = c_div (screencols E - w) 2"
  define wbuf where "wbuf = take 79 text @ [NUL]"
  have w0: "0 \<le> w" and wc: "w \<le> screencols E" using cols by (auto simp: w_def)
  have wl: "w \<le> int (length wbuf)" using fits by (auto simp: w_def wbuf_def)
  have p: "p = (screencols E - w) div 2" using wc by (simp add: p_def c_div_nonneg)
  have p0: "0 \<le> p" and pw: "p + w \<le> screencols E" using wc by (auto simp: p)
  have eq: "drawWelcome_text P text E ab =
      Option.bind
        (if p \<noteq> 0 then Option.bind (abAppend P ab ''~'' 1) (\<lambda>ab'. Some (ab', p - 1))
         else Some (ab, p))
        (\<lambda>(ab1, p1). Option.bind (drawWelcome_pad P p1 ab1) (\<lambda>ab2. abAppend P ab2 wbuf w))"
    by (simp add: drawWelcome_text_unfold Let_def w_def p_def wbuf_def)
  show ?thesis
  proof (cases "p = 0")
    case True
    obtain c where c: "abAppend P ab wbuf w = Some (ab @ c)" "int (length c) \<le> w"
      using abAppend_some [OF w0 wl] by blast
    have "drawWelcome_text P text E ab = Some (ab @ c)"
      using True c by (simp add: eq drawWelcome_pad.simps)
    with c wc show ?thesis by auto
  next
    case False
    with p0 have p1: "0 \<le> p - 1" by simp
    obtain a where a: "abAppend P ab ''~'' 1 = Some (ab @ a)" "int (length a) \<le> 1"
      using abAppend_some [of 1 "''~''" P ab] by auto
    obtain b where b: "drawWelcome_pad P (p - 1) (ab @ a) = Some ((ab @ a) @ b)"
      "int (length b) \<le> p - 1"
      using drawWelcome_pad_some [OF p1] by blast
    obtain c where c: "abAppend P ((ab @ a) @ b) wbuf w = Some (((ab @ a) @ b) @ c)"
      "int (length c) \<le> w"
      using abAppend_some [OF w0 wl] by blast
    have "drawWelcome_text P text E ab = Some (ab @ (a @ b @ c))"
      using False a b c by (simp add: eq)
    moreover have "int (length (a @ b @ c)) \<le> screencols E"
      using a b c pw by simp
    ultimately show ?thesis by blast
  qed
qed





section \<open>The frame\<close>



lemma snprintf_fits:
  "length s < sz \<Longrightarrow> snprintf sz s = (s @ [NUL], int (length s))"
  by (simp add: snprintf_def)





lemma strlen_buf: "NUL \<notin> set s \<Longrightarrow> strlen (s @ [NUL]) = int (length s)"
  by (induction s) (auto simp: strlen_def)

lemma in_bounds_dec:
  assumes b: "in_bounds E" and r: "c_int (screenrows E)" and c: "c_int (screencols E)"
  shows "length (dec (cursor_y E + 1)) \<le> 10" "length (dec (cursor_x E + 1)) \<le> 10"
    "length (dec (screenrows E)) \<le> 10" "length (dec (screencols E)) \<le> 10"
    "NUL \<notin> set (dec (cursor_y E + 1))" "NUL \<notin> set (dec (cursor_x E + 1))"
proof -
  have "c_int (cursor_y E + 1)" "c_int (cursor_x E + 1)"
    using b r c by (auto simp: in_bounds_def c_int_def)
  moreover have "0 \<le> cursor_y E + 1" "0 \<le> cursor_x E + 1" "0 \<le> screenrows E" "0 \<le> screencols E"
    using b by (auto simp: in_bounds_def)
  ultimately show "length (dec (cursor_y E + 1)) \<le> 10" "length (dec (cursor_x E + 1)) \<le> 10"
    "length (dec (screenrows E)) \<le> 10" "length (dec (screencols E)) \<le> 10"
    "NUL \<notin> set (dec (cursor_y E + 1))" "NUL \<notin> set (dec (cursor_x E + 1))"
    using r c by (simp_all add: dec_length dec_no_NUL)
qed


lemma abAppend_defined:
  "0 \<le> len \<Longrightarrow> len \<le> int (length s) \<Longrightarrow> \<exists>ab'. abAppend P ab s len = Some ab'"
  using abAppend_some [of len s P ab] by blast

lemma refreshScreen_rows_defined:
  assumes cols: "0 \<le> screencols E" and rows: "c_int (screenrows E)"
  shows "0 \<le> y \<Longrightarrow> \<exists>ab'. refreshScreen_rows P E y ab = Some ab'"
proof (induction "nat (screenrows E - y)" arbitrary: y ab)
  case 0
  then have "\<not> y < screenrows E" by simp
  then show ?case by (subst refreshScreen_rows.simps) simp
next
  case (Suc n)
  then have lt: "y < screenrows E" by simp
  define num where "num = dec (y + 1) @ '' ''"
  have "c_int (y + 1)" using Suc.prems lt rows by (simp add: c_int_def)
  with Suc.prems have "length (dec (y + 1)) \<le> 10" by (intro dec_length) simp_all
  then have "length num < 32" by (simp add: num_def)
  then have line: "snprintf 32 num = (num @ [NUL], int (length num))" by (rule snprintf_fits)
  have pos: "0 < int (length num)" by (simp add: num_def)
  obtain ab1 where a1: "abAppend P ab (num @ [NUL]) (int (length num)) = Some ab1"
    using abAppend_defined [of "int (length num)" "num @ [NUL]" P ab] by auto
  obtain ab2 where a2: "(if y = 0 then drawWelcome P E ab1 else abAppend P ab1 ''~'' 1) = Some ab2"
  proof (cases "y = 0")
    case True
    have "length welcome_text = 28" by (simp add: welcome_text_def)
    then obtain added where "drawWelcome P E ab1 = Some (ab1 @ added)"
      using drawWelcome_text_some [OF cols, of welcome_text P ab1] by (auto simp: drawWelcome_def)
    with True that show ?thesis by simp
  next
    case False
    with that abAppend_defined [of 1 "''~''" P ab1] show ?thesis by auto
  qed
  obtain ab3 where a3: "abAppend P ab2 (ESC # ''[K'') 3 = Some ab3"
    using abAppend_defined [of 3 "ESC # ''[K''" P ab2] by auto
  obtain ab4 where a4: "(if y < screenrows E - 1 then abAppend P ab3 [CHR 0x0D, CHR 0x0A] 2
      else Some ab3) = Some ab4"
    using abAppend_defined [of 2 "[CHR 0x0D, CHR 0x0A]" P ab3] by (cases "y < screenrows E - 1") auto
  have "n = nat (screenrows E - (y + 1))" using Suc.hyps(2) by simp
  from Suc.hyps(1) [OF this, of ab4] Suc.prems
  obtain ab' where r: "refreshScreen_rows P E (y + 1) ab4 = Some ab'" by auto
  have "refreshScreen_rows P E y ab = Some ab'"
    using lt pos by (subst refreshScreen_rows.simps) (simp add: num_def [symmetric] line a1 a2 a3 a4 r)
  then show ?case by blast
qed

lemma refreshScreen_defined:
  assumes b: "in_bounds E" and r: "c_int (screenrows E)" and c: "c_int (screencols E)"
  shows "\<exists>frame. refreshScreen P E = Some frame"
proof -
  note d = in_bounds_dec [OF b r c]
  have cols: "0 \<le> screencols E" using b by (simp add: in_bounds_def)
  have sl: "length (status_text E) < 80" using d(1-4) by (simp add: status_text_def)
  have cl: "length (cursor_text E) < 32" using d(1,2) by (simp add: cursor_text_def)
  have cn: "NUL \<notin> set (cursor_text E)" using d(5,6) by (simp add: cursor_text_def)
  have st: "snprintf 80 (status_text E) = (status_text E @ [NUL], int (length (status_text E)))"
    using sl by (rule snprintf_fits)
  have ct: "snprintf 32 (cursor_text E) = (cursor_text E @ [NUL], int (length (cursor_text E)))"
    using cl by (rule snprintf_fits)
  define statuslen where "statuslen =
    (if int (length (status_text E)) > screencols E then screencols E
     else int (length (status_text E)))"
  have s0: "0 \<le> statuslen" "statuslen \<le> int (length (status_text E @ [NUL]))"
    using cols by (auto simp: statuslen_def)
  obtain ab1 where 1: "abAppend P [] (ESC # ''[?25l'') 6 = Some ab1"
    using abAppend_defined [of 6 "ESC # ''[?25l''" P "[]"] by auto
  obtain ab2 where 2: "abAppend P ab1 (ESC # ''[H'') 3 = Some ab2"
    using abAppend_defined [of 3 "ESC # ''[H''" P ab1] by auto
  obtain ab3 where 3: "refreshScreen_rows P E 0 ab2 = Some ab3"
    using refreshScreen_rows_defined [OF cols r, of 0 P ab2] by auto
  obtain ab4 where 4: "abAppend P ab3 (ESC # ''[999C'') 6 = Some ab4"
    using abAppend_defined [of 6 "ESC # ''[999C''" P ab3] by auto
  obtain ab5 where 5: "abAppend P ab4 (ESC # ''[1A'') 4 = Some ab5"
    using abAppend_defined [of 4 "ESC # ''[1A''" P ab4] by auto
  obtain ab6 where 6: "abAppend P ab5 (ESC # ''[7m'') 4 = Some ab6"
    using abAppend_defined [of 4 "ESC # ''[7m''" P ab5] by auto
  obtain ab7 where 7: "abAppend P ab6 (status_text E @ [NUL]) statuslen = Some ab7"
    using abAppend_defined [OF s0, of P ab6] by auto
  obtain ab8 where 8: "abAppend P ab7 (ESC # ''[m'') 3 = Some ab8"
    using abAppend_defined [of 3 "ESC # ''[m''" P ab7] by auto
  obtain ab9 where 9: "abAppend P ab8 (cursor_text E @ [NUL]) (strlen (cursor_text E @ [NUL])) = Some ab9"
    using abAppend_defined [of "strlen (cursor_text E @ [NUL])" "cursor_text E @ [NUL]" P ab8]
      strlen_buf [OF cn] by auto
  obtain ab10 where 10: "abAppend P ab9 (ESC # ''[?25h'') 6 = Some ab10"
    using abAppend_defined [of 6 "ESC # ''[?25h''" P ab9] by auto
  have "refreshScreen P E = Some ab10"
    unfolding refreshScreen_def st ct
    by (simp add: 1 2 3 4 5 6 statuslen_def [symmetric] 7 8 9 10)
  then show ?thesis by blast
qed

















section \<open>The main loop: scenario and quit keys\<close>

lemma loop_body_quit:
  assumes "refreshScreen P E = Some frame" and "readKey P src = Some (Inr (c, src'))"
    and "c = of_char CHR ''q'' \<or> c = KEY_ESC"
  shows "loop_body P E src out = Some (Inr (Quit E src' (out @ [frame, ESC # ''[2J'', ESC # ''[H''])))"
  using assms by (auto simp: loop_body_def clearScreen_def)

lemma main_loop_quit:
  assumes "loop_body P E src out = Some (Inr (Quit E' src' out'))"
  shows "main_loop P E src out = Some (Inr (E', src', out'))"
  using assms by (subst main_loop.simps) simp

lemma main_loop_continue:
  assumes "loop_body P E src out = Some (Inr (Continue E' src' out'))"
  shows "main_loop P E src out = main_loop P E' src' out'"
  using assms by (subst main_loop.simps) simp

lemma readKey_plain:
  assumes "c \<noteq> ESC"
  shows "readKey P (Byte c # src) = Some (Inr (char_to_int P c, src))"
  using assms by (simp add: readKey_def)


lemma loop_body_other:
  assumes "refreshScreen P E = Some frame" and "c \<noteq> ESC" and "c \<noteq> CHR ''q''"
    and "(of_char c :: int) < 128"
  shows "loop_body P E (Byte c # src) out = Some (Inr (Continue E src (out @ [frame])))"
proof -
  have v: "char_to_int P c = of_char c" using assms(4) by (simp add: char_to_int_def)
  have "(of_char c :: int) \<noteq> of_char CHR ''q''" "(of_char c :: int) \<noteq> of_char ESC"
    using assms(2,3) by (simp_all only: of_char_eq_iff not_False_eq_True)
  with assms(4) show ?thesis
    using assms(1) readKey_plain [OF assms(2), of P src]
    by (simp add: loop_body_def v)
qed

text \<open>
  Claim C9. From cursor \<open>(0, 0)\<close> and extent \<open>(24, 80)\<close>, on the bytes \<open>h\<close>, \<open>j\<close>, \<open>ESC [ C\<close>, \<open>q\<close>
  (on either kind of \<^verbatim>\<open>char\<close>, and whatever \<^verbatim>\<open>realloc\<close> answers): the passes for \<open>h\<close> and \<open>j\<close> leave the state as it
  is, the pass for \<open>ESC [ C\<close> moves the cursor to row 0, column 1, and the pass for \<open>q\<close> leaves
  the loop. \<open>main\<close> returns 0 with the cursor at row 0, column 1; the output is the four
  frames, then the two clear-screen sequences, then the confirmation line.
\<close>

theorem main_scenario:
  "\<exists>f0 f1.
      refreshScreen P \<lparr>screenrows = 24, screencols = 80, cursor_x = 0, cursor_y = 0\<rparr> = Some f0
    \<and> refreshScreen P \<lparr>screenrows = 24, screencols = 80, cursor_x = 1, cursor_y = 0\<rparr> = Some f1
    \<and> loop_body P \<lparr>screenrows = 24, screencols = 80, cursor_x = 0, cursor_y = 0\<rparr>
          [Byte CHR ''h'', Byte CHR ''j'', Byte ESC, Byte CHR ''['', Byte CHR ''C'', Byte CHR ''q''] []
        = Some (Inr (Continue \<lparr>screenrows = 24, screencols = 80, cursor_x = 0, cursor_y = 0\<rparr>
            [Byte CHR ''j'', Byte ESC, Byte CHR ''['', Byte CHR ''C'', Byte CHR ''q''] [f0]))
    \<and> loop_body P \<lparr>screenrows = 24, screencols = 80, cursor_x = 0, cursor_y = 0\<rparr>
          [Byte CHR ''j'', Byte ESC, Byte CHR ''['', Byte CHR ''C'', Byte CHR ''q''] [f0]
        = Some (Inr (Continue \<lparr>screenrows = 24, screencols = 80, cursor_x = 0, cursor_y = 0\<rparr>
            [Byte ESC, Byte CHR ''['', Byte CHR ''C'', Byte CHR ''q''] [f0, f0]))
    \<and> loop_body P \<lparr>screenrows = 24, screencols = 80, cursor_x = 0, cursor_y = 0\<rparr>
          [Byte ESC, Byte CHR ''['', Byte CHR ''C'', Byte CHR ''q''] [f0, f0]
        = Some (Inr (Continue \<lparr>screenrows = 24, screencols = 80, cursor_x = 1, cursor_y = 0\<rparr>
            [Byte CHR ''q''] [f0, f0, f0]))
    \<and> loop_body P \<lparr>screenrows = 24, screencols = 80, cursor_x = 1, cursor_y = 0\<rparr>
          [Byte CHR ''q''] [f0, f0, f0]
        = Some (Inr (Quit \<lparr>screenrows = 24, screencols = 80, cursor_x = 1, cursor_y = 0\<rparr>
            [] [f0, f0, f0, f1, ESC # ''[2J'', ESC # ''[H'']))
    \<and> main_from_loop P \<lparr>screenrows = 24, screencols = 80, cursor_x = 0, cursor_y = 0\<rparr>
          [Byte CHR ''h'', Byte CHR ''j'', Byte ESC, Byte CHR ''['', Byte CHR ''C'', Byte CHR ''q''] []
        = Some (Inr (0, \<lparr>screenrows = 24, screencols = 80, cursor_x = 1, cursor_y = 0\<rparr>, [],
            [f0, f0, f0, f1, ESC # ''[2J'', ESC # ''[H'', goodbye]))"
proof -
  let ?E0 = "\<lparr>screenrows = 24, screencols = 80, cursor_x = 0, cursor_y = 0\<rparr>"
  let ?E1 = "\<lparr>screenrows = 24, screencols = 80, cursor_x = 1, cursor_y = 0\<rparr>"
  obtain f0 where f0: "refreshScreen P ?E0 = Some f0"
    using refreshScreen_defined [of ?E0 P] by (auto simp: in_bounds_def c_int_def)
  obtain f1 where f1: "refreshScreen P ?E1 = Some f1"
    using refreshScreen_defined [of ?E1 P] by (auto simp: in_bounds_def c_int_def)
  have s1: "loop_body P ?E0
      [Byte CHR ''h'', Byte CHR ''j'', Byte ESC, Byte CHR ''['', Byte CHR ''C'', Byte CHR ''q''] []
    = Some (Inr (Continue ?E0 [Byte CHR ''j'', Byte ESC, Byte CHR ''['', Byte CHR ''C'', Byte CHR ''q''] [f0]))"
    using loop_body_other [OF f0, of "CHR ''h''" _ "[]"] by simp
  have s2: "loop_body P ?E0 [Byte CHR ''j'', Byte ESC, Byte CHR ''['', Byte CHR ''C'', Byte CHR ''q''] [f0]
    = Some (Inr (Continue ?E0 [Byte ESC, Byte CHR ''['', Byte CHR ''C'', Byte CHR ''q''] [f0, f0]))"
    using loop_body_other [OF f0, of "CHR ''j''" _ "[f0]"] by simp
  have k3: "readKey P [Byte ESC, Byte CHR ''['', Byte CHR ''C'', Byte CHR ''q'']
      = Some (Inr (KEY_RIGHT, [Byte CHR ''q'']))"
    by (simp add: readKey_def readKey_escape_def read1_def is_digit_def)
  have s3: "loop_body P ?E0 [Byte ESC, Byte CHR ''['', Byte CHR ''C'', Byte CHR ''q''] [f0, f0]
    = Some (Inr (Continue ?E1 [Byte CHR ''q''] [f0, f0, f0]))"
    by (simp add: loop_body_def f0 k3 moveCursor_def)
  have k4: "readKey P [Byte CHR ''q''] = Some (Inr (of_char CHR ''q'', []))"
    by (simp add: readKey_def char_to_int_def)
  have s4: "loop_body P ?E1 [Byte CHR ''q''] [f0, f0, f0]
    = Some (Inr (Quit ?E1 [] [f0, f0, f0, f1, ESC # ''[2J'', ESC # ''[H'']))"
    using loop_body_quit [OF f1 k4, of "[f0, f0, f0]"] by simp
  have "main_loop P ?E0
      [Byte CHR ''h'', Byte CHR ''j'', Byte ESC, Byte CHR ''['', Byte CHR ''C'', Byte CHR ''q''] []
    = Some (Inr (?E1, [], [f0, f0, f0, f1, ESC # ''[2J'', ESC # ''[H'']))"
    by (simp only: main_loop_continue [OF s1] main_loop_continue [OF s2]
        main_loop_continue [OF s3] main_loop_quit [OF s4])
  then have m: "main_from_loop P ?E0
      [Byte CHR ''h'', Byte CHR ''j'', Byte ESC, Byte CHR ''['', Byte CHR ''C'', Byte CHR ''q''] []
    = Some (Inr (0, ?E1, [], [f0, f0, f0, f1, ESC # ''[2J'', ESC # ''[H'', goodbye]))"
    by (simp add: main_from_loop_def)
  from f0 f1 s1 s2 s3 s4 m show ?thesis by blast
qed


theorem main_scenario_witness:
  "\<exists>f0 f1. main_from_loop \<lparr>char_signed = False, realloc_ok = (\<lambda>n. n < 4096)\<rparr>
          \<lparr>screenrows = 24, screencols = 80, cursor_x = 0, cursor_y = 0\<rparr>
          [Byte CHR ''h'', Byte CHR ''j'', Byte ESC, Byte CHR ''['', Byte CHR ''C'', Byte CHR ''q''] []
        = Some (Inr (0, \<lparr>screenrows = 24, screencols = 80, cursor_x = 1, cursor_y = 0\<rparr>, [],
            [f0, f0, f0, f1, ESC # ''[2J'', ESC # ''[H'', goodbye]))"
  using main_scenario [of "\<lparr>char_signed = False, realloc_ok = (\<lambda>n. n < 4096)\<rparr>"] by blast

text \<open>
  Claim C10. When the reads after the escape byte do not begin with a recognized sequence
  (\<open>ESC O P\<close>, as an F1 key sends, is one case), \<open>readKey\<close> returns 27, the value it returns
  for a bare escape press; the pass through the loop then takes the quit branch, and \<open>main\<close>
  clears the screen and returns 0, from every state with the cursor inside a positive
  extent.
\<close>

theorem unrecognized_escape_quits:
  assumes "idle pre" and "\<not> recognized rest"
    and "in_bounds E" and "c_int (screenrows E)" and "c_int (screencols E)"
  shows "(\<exists>frame. \<exists>n\<le>3.
        refreshScreen P E = Some frame
      \<and> readKey P (pre @ Byte ESC # rest) = Some (Inr (KEY_ESC, drop n rest))
      \<and> loop_body P E (pre @ Byte ESC # rest) out
          = Some (Inr (Quit E (drop n rest) (out @ [frame, ESC # ''[2J'', ESC # ''[H''])))
      \<and> main_from_loop P E (pre @ Byte ESC # rest) out
          = Some (Inr (0, E, drop n rest, out @ [frame, ESC # ''[2J'', ESC # ''[H'', goodbye])))
    \<and> readKey P (pre @ [Byte ESC]) = Some (Inr (KEY_ESC, []))
    \<and> readKey P (pre @ Byte ESC # Byte CHR ''O'' # Byte CHR ''P'' # tail) = Some (Inr (KEY_ESC, tail))"
proof -
  obtain frame where f: "refreshScreen P E = Some frame"
    using refreshScreen_defined [OF assms(3-5)] by blast
  obtain n where n: "n \<le> 3" and e: "readKey_escape rest = (KEY_ESC, drop n rest)"
    using readKey_escape_unrecognized [OF assms(2)] by blast
  have k: "readKey P (pre @ Byte ESC # rest) = Some (Inr (KEY_ESC, drop n rest))"
    by (simp add: readKey_ESC [OF assms(1)] e)
  have b: "loop_body P E (pre @ Byte ESC # rest) out
      = Some (Inr (Quit E (drop n rest) (out @ [frame, ESC # ''[2J'', ESC # ''[H''])))"
    using loop_body_quit [OF f k] by simp
  have m: "main_from_loop P E (pre @ Byte ESC # rest) out
      = Some (Inr (0, E, drop n rest, out @ [frame, ESC # ''[2J'', ESC # ''[H'', goodbye]))"
    by (simp add: main_from_loop_def main_loop_quit [OF b])
  have bare: "readKey P (pre @ [Byte ESC]) = Some (Inr (KEY_ESC, []))"
    by (simp add: readKey_ESC [OF assms(1)] readKey_escape_def read1_def)
  have f1: "readKey P (pre @ Byte ESC # Byte CHR ''O'' # Byte CHR ''P'' # tail) = Some (Inr (KEY_ESC, tail))"
    by (simp add: readKey_ESC [OF assms(1)] readKey_escape_def read1_def)
  from f n k b m bare f1 show ?thesis by blast
qed

theorem unrecognized_escape_quits_witness:
  "idle [NoData] \<and> \<not> recognized [Byte CHR ''O'', Byte CHR ''P'', Byte CHR ''x'']
   \<and> in_bounds \<lparr>screenrows = 24, screencols = 80, cursor_x = 3, cursor_y = 5\<rparr>
   \<and> c_int 24 \<and> c_int 80
   \<and> (\<exists>frame. main_from_loop \<lparr>char_signed = True, realloc_ok = (\<lambda>n. True)\<rparr>
            \<lparr>screenrows = 24, screencols = 80, cursor_x = 3, cursor_y = 5\<rparr>
            [NoData, Byte ESC, Byte CHR ''O'', Byte CHR ''P'', Byte CHR ''x''] []
          = Some (Inr (0, \<lparr>screenrows = 24, screencols = 80, cursor_x = 3, cursor_y = 5\<rparr>,
                [Byte CHR ''x''], [frame, ESC # ''[2J'', ESC # ''[H'', goodbye])))"
proof -
  let ?P = "\<lparr>char_signed = True, realloc_ok = (\<lambda>n. True)\<rparr>"
  let ?E = "\<lparr>screenrows = 24, screencols = 80, cursor_x = 3, cursor_y = 5\<rparr>"
  let ?rest = "[Byte CHR ''O'', Byte CHR ''P'', Byte CHR ''x'']"
  have i: "idle [NoData]" by (simp add: idle_def)
  have u: "\<not> recognized ?rest" by (simp add: recognized_def escape_table_def)
  have b: "in_bounds ?E" by (simp add: in_bounds_def)
  have r: "c_int (screenrows ?E)" and c: "c_int (screencols ?E)" by (simp_all add: c_int_def)
  have k: "readKey ?P ([NoData] @ Byte ESC # ?rest) = Some (Inr (KEY_ESC, [Byte CHR ''x'']))"
    by (simp add: readKey_def readKey_escape_def read1_def)
  from unrecognized_escape_quits [OF i u b r c, of ?P "[]"] obtain frame n where
    "readKey ?P ([NoData] @ Byte ESC # ?rest) = Some (Inr (KEY_ESC, drop n ?rest))"
    "main_from_loop ?P ?E ([NoData] @ Byte ESC # ?rest) []
      = Some (Inr (0, ?E, drop n ?rest, [] @ [frame, ESC # ''[2J'', ESC # ''[H'', goodbye]))"
    by blast
  with k have "main_from_loop ?P ?E ([NoData] @ Byte ESC # ?rest) []
      = Some (Inr (0, ?E, [Byte CHR ''x''], [frame, ESC # ''[2J'', ESC # ''[H'', goodbye]))"
    by simp
  with i u b r c show ?thesis by auto
qed

section \<open>Raw mode: the attributes applied and restored\<close>

lemma enableRawMode_Inr:
  "enableRawMode K get_ok set_ok T = Inr T' \<Longrightarrow>
     T' = T\<lparr>line_attrs := make_raw K (line_attrs T), orig_termios := line_attrs T,
            atexit_handlers := DisableRawMode # atexit_handlers T\<rparr>"
  by (auto simp: enableRawMode_def Let_def split: if_splits)

lemma make_raw_fields:
  "c_iflag (make_raw K a) = c_iflag a AND NOT (BRKINT K OR ICRNL K OR INPCK K OR ISTRIP K OR IXON K)"
  "c_oflag (make_raw K a) = c_oflag a AND NOT (OPOST K)"
  "c_cflag (make_raw K a) = c_cflag a OR CS8 K"
  "c_lflag (make_raw K a) = c_lflag a AND NOT (ECHO K OR ICANON K OR IEXTEN K OR ISIG K)"
  "c_cc (make_raw K a) = (c_cc a)[VMIN K := 0, VTIME K := 1]"
  "termios.more (make_raw K a) = termios.more a"
  by (simp_all add: make_raw_def Let_def)

text \<open>
  Claim C6. When \<open>enableRawMode\<close> returns, \<open>orig_termios\<close> holds the attributes the terminal
  had at the call, bit for bit. \<open>disableRawMode\<close> after it leaves \<open>orig_termios\<close> as it is and
  puts exactly those attributes back on the terminal. (No other function of the program
  refers to \<open>orig_termios\<close>: the editor's functions work on a state that does not contain it.)
\<close>

theorem raw_mode_round_trip:
  assumes "enableRawMode K get_ok set_ok T = Inr T1"
    and "disableRawMode set_ok' T1 = Inr T2"
  shows "orig_termios T1 = line_attrs T
    \<and> orig_termios T2 = line_attrs T
    \<and> line_attrs T2 = line_attrs T"
  using enableRawMode_Inr [OF assms(1)] assms(2)
  by (auto simp: disableRawMode_def split: if_splits)

text \<open>
  Claim C7. The attributes \<open>enableRawMode\<close> applies are the captured ones except that, bit by
  bit: the input flags lose \<open>BRKINT\<close>, \<open>ICRNL\<close>, \<open>INPCK\<close>, \<open>ISTRIP\<close> and \<open>IXON\<close>; the output flags
  lose \<open>OPOST\<close>; the control flags gain \<open>CS8\<close>; the local flags lose \<open>ECHO\<close>, \<open>ICANON\<close>,
  \<open>IEXTEN\<close> and \<open>ISIG\<close>; \<open>c_cc[VMIN]\<close> is 0 and \<open>c_cc[VTIME]\<close> is 1 (a read timeout of one
  tenth of a second with no minimum count); every other control character and every other
  member is unchanged.
\<close>

theorem enableRawMode_flags:
  assumes "enableRawMode K get_ok set_ok T = Inr T'"
    and "VMIN K < length (c_cc (line_attrs T))" and "VTIME K < length (c_cc (line_attrs T))"
    and "VMIN K \<noteq> VTIME K"
  shows "(\<forall>n. bit (c_iflag (line_attrs T')) n \<longleftrightarrow>
            bit (c_iflag (line_attrs T)) n \<and>
            \<not> (bit (BRKINT K) n \<or> bit (ICRNL K) n \<or> bit (INPCK K) n \<or> bit (ISTRIP K) n \<or> bit (IXON K) n))
    \<and> (\<forall>n. bit (c_oflag (line_attrs T')) n \<longleftrightarrow> bit (c_oflag (line_attrs T)) n \<and> \<not> bit (OPOST K) n)
    \<and> (\<forall>n. bit (c_cflag (line_attrs T')) n \<longleftrightarrow> bit (c_cflag (line_attrs T)) n \<or> bit (CS8 K) n)
    \<and> (\<forall>n. bit (c_lflag (line_attrs T')) n \<longleftrightarrow>
            bit (c_lflag (line_attrs T)) n \<and>
            \<not> (bit (ECHO K) n \<or> bit (ICANON K) n \<or> bit (IEXTEN K) n \<or> bit (ISIG K) n))
    \<and> length (c_cc (line_attrs T')) = length (c_cc (line_attrs T))
    \<and> c_cc (line_attrs T') ! VMIN K = 0
    \<and> c_cc (line_attrs T') ! VTIME K = 1
    \<and> (\<forall>i. i \<noteq> VMIN K \<and> i \<noteq> VTIME K \<longrightarrow> c_cc (line_attrs T') ! i = c_cc (line_attrs T) ! i)
    \<and> termios.more (line_attrs T') = termios.more (line_attrs T)"
proof -
  have raw: "line_attrs T' = make_raw K (line_attrs T)"
    using enableRawMode_Inr [OF assms(1)] by simp
  have i: "\<forall>n. bit (c_iflag (line_attrs T')) n \<longleftrightarrow>
            bit (c_iflag (line_attrs T)) n \<and>
            \<not> (bit (BRKINT K) n \<or> bit (ICRNL K) n \<or> bit (INPCK K) n \<or> bit (ISTRIP K) n \<or> bit (IXON K) n)"
    by (auto simp: raw make_raw_fields bit_simps dest: bit_imp_le_length)
  have o: "\<forall>n. bit (c_oflag (line_attrs T')) n \<longleftrightarrow> bit (c_oflag (line_attrs T)) n \<and> \<not> bit (OPOST K) n"
    by (auto simp: raw make_raw_fields bit_simps dest: bit_imp_le_length)
  have c: "\<forall>n. bit (c_cflag (line_attrs T')) n \<longleftrightarrow> bit (c_cflag (line_attrs T)) n \<or> bit (CS8 K) n"
    by (auto simp: raw make_raw_fields bit_simps)
  have l: "\<forall>n. bit (c_lflag (line_attrs T')) n \<longleftrightarrow>
            bit (c_lflag (line_attrs T)) n \<and>
            \<not> (bit (ECHO K) n \<or> bit (ICANON K) n \<or> bit (IEXTEN K) n \<or> bit (ISIG K) n)"
    by (auto simp: raw make_raw_fields bit_simps dest: bit_imp_le_length)
  have cc: "length (c_cc (line_attrs T')) = length (c_cc (line_attrs T))"
    "c_cc (line_attrs T') ! VMIN K = 0" "c_cc (line_attrs T') ! VTIME K = 1"
    "\<forall>i. i \<noteq> VMIN K \<and> i \<noteq> VTIME K \<longrightarrow> c_cc (line_attrs T') ! i = c_cc (line_attrs T) ! i"
    using assms(2-4) by (simp_all add: raw make_raw_fields)
  have m: "termios.more (line_attrs T') = termios.more (line_attrs T)"
    by (simp add: raw make_raw_fields)
  from i o c l cc m show ?thesis by blast
qed


theorem raw_mode_round_trip_witness:
  "enableRawMode linux_consts True True
      \<lparr>line_attrs = cooked, orig_termios = cooked\<lparr>c_lflag := 0\<rparr>, atexit_handlers = []\<rparr>
     = Inr \<lparr>line_attrs = cooked\<lparr>c_iflag := 0x4000, c_oflag := 0x4, c_lflag := 0xA30,
                c_cc := [3, 28, 127, 21, 4, 1, 0, 0, 17, 19, 26, 0, 18, 15, 23, 22, 0, 0, 0]\<rparr>,
             orig_termios = cooked, atexit_handlers = [DisableRawMode]\<rparr>
   \<and> disableRawMode True
        \<lparr>line_attrs = cooked\<lparr>c_iflag := 0x4000, c_oflag := 0x4, c_lflag := 0xA30,
                c_cc := [3, 28, 127, 21, 4, 1, 0, 0, 17, 19, 26, 0, 18, 15, 23, 22, 0, 0, 0]\<rparr>,
             orig_termios = cooked, atexit_handlers = [DisableRawMode]\<rparr>
     = Inr \<lparr>line_attrs = cooked, orig_termios = cooked, atexit_handlers = [DisableRawMode]\<rparr>
   \<and> line_attrs \<lparr>line_attrs = cooked, orig_termios = cooked, atexit_handlers = [DisableRawMode]\<rparr>
       = cooked"
proof -
  let ?T = "\<lparr>line_attrs = cooked, orig_termios = cooked\<lparr>c_lflag := 0\<rparr>, atexit_handlers = []\<rparr>"
  let ?T1 = "\<lparr>line_attrs = cooked\<lparr>c_iflag := 0x4000, c_oflag := 0x4, c_lflag := 0xA30,
                c_cc := [3, 28, 127, 21, 4, 1, 0, 0, 17, 19, 26, 0, 18, 15, 23, 22, 0, 0, 0]\<rparr>,
             orig_termios = cooked, atexit_handlers = [DisableRawMode]\<rparr>"
  let ?T2 = "\<lparr>line_attrs = cooked, orig_termios = cooked, atexit_handlers = [DisableRawMode]\<rparr>"
  have e: "enableRawMode linux_consts True True ?T = Inr ?T1"
    by (simp add: enableRawMode_def make_raw_def Let_def linux_consts_def cooked_def)
  have d: "disableRawMode True ?T1 = Inr ?T2"
    by (simp add: disableRawMode_def)
  from raw_mode_round_trip [OF e d] e d show ?thesis by simp
qed

theorem enableRawMode_flags_witness:
  "enableRawMode linux_consts True True
      \<lparr>line_attrs = cooked, orig_termios = cooked\<lparr>c_lflag := 0\<rparr>, atexit_handlers = []\<rparr>
     = Inr \<lparr>line_attrs = cooked\<lparr>c_iflag := 0x4000, c_oflag := 0x4, c_lflag := 0xA30,
                c_cc := [3, 28, 127, 21, 4, 1, 0, 0, 17, 19, 26, 0, 18, 15, 23, 22, 0, 0, 0]\<rparr>,
             orig_termios = cooked, atexit_handlers = [DisableRawMode]\<rparr>
   \<and> VMIN linux_consts < length (c_cc cooked) \<and> VTIME linux_consts < length (c_cc cooked)
   \<and> VMIN linux_consts \<noteq> VTIME linux_consts
   \<and> [3, 28, 127, 21, 4, 1, 0, 0, 17, 19, 26, 0, 18, 15, 23, 22, 0, 0, 0 :: 8 word] ! VMIN linux_consts = 0
   \<and> [3, 28, 127, 21, 4, 1, 0, 0, 17, 19, 26, 0, 18, 15, 23, 22, 0, 0, 0 :: 8 word] ! VTIME linux_consts = 1"
proof -
  let ?T = "\<lparr>line_attrs = cooked, orig_termios = cooked\<lparr>c_lflag := 0\<rparr>, atexit_handlers = []\<rparr>"
  let ?T1 = "\<lparr>line_attrs = cooked\<lparr>c_iflag := 0x4000, c_oflag := 0x4, c_lflag := 0xA30,
                c_cc := [3, 28, 127, 21, 4, 1, 0, 0, 17, 19, 26, 0, 18, 15, 23, 22, 0, 0, 0]\<rparr>,
             orig_termios = cooked, atexit_handlers = [DisableRawMode]\<rparr>"
  have e: "enableRawMode linux_consts True True ?T = Inr ?T1"
    by (simp add: enableRawMode_def make_raw_def Let_def linux_consts_def cooked_def)
  have h: "VMIN linux_consts < length (c_cc (line_attrs ?T))"
    "VTIME linux_consts < length (c_cc (line_attrs ?T))" "VMIN linux_consts \<noteq> VTIME linux_consts"
    by (simp_all add: linux_consts_def cooked_def)
  from enableRawMode_flags [OF e h] e h show ?thesis by simp
qed

section \<open>The cursor-position reply\<close>





















end
